theory Spec2Isabelle
  imports Complex_Main "HOL-Library.Signed_Division"
begin

section \<open>Values of the program\<close>

subsection \<open>The type float\<close>

text \<open>
  A C++ \<^verbatim>\<open>float\<close> is either a finite number or one of the three special values of
  IEEE 754. The special values are modelled exactly, because the program produces them
  (it divides by zero for axis-aligned and zero-length rays) and branches on them
  (every comparison with a NaN is false). A finite result is taken to be the exact
  real number: rounding to 24 bits is not modelled, and the sign of a zero is not
  kept (every zero divisor of the program is a positive zero, and every infinite
  quotient is squared before it is used).

  Rounding matters for a slanted ray, where a coordinate of the program can fall just
  below the grid line on which the exact value lies, so that its integer part is one
  less. The theorems below on the board, on the inputs of a call, on one iteration and
  on the ray of length zero use no property of finite arithmetic that rounding breaks;
  those on the step sizes and on the number of iterations are theorems of the exact
  arithmetic. Every concrete cast below that shows the code to break a claim is a
  horizontal or a vertical ray between points with integer coordinates: all its numbers
  are integers or special values, binary32 arithmetic is exact on them, and the trace
  of the model is the trace of the program. The one slanted cast that shows a claim to
  be false, the diagonal of the tie, is discussed where it is defined.
\<close>

datatype float = Fin real | PInf | NInf | NaN

fun fneg :: "float \<Rightarrow> float" where
  "fneg (Fin a) = Fin (- a)"
| "fneg PInf = NInf"
| "fneg NInf = PInf"
| "fneg NaN = NaN"

fun fadd :: "float \<Rightarrow> float \<Rightarrow> float" where
  "fadd (Fin a) (Fin b) = Fin (a + b)"
| "fadd (Fin a) PInf = PInf"
| "fadd (Fin a) NInf = NInf"
| "fadd PInf (Fin b) = PInf"
| "fadd PInf PInf = PInf"
| "fadd NInf (Fin b) = NInf"
| "fadd NInf NInf = NInf"
| "fadd PInf NInf = NaN"
| "fadd NInf PInf = NaN"
| "fadd NaN y = NaN"
| "fadd x NaN = NaN"

definition fsub :: "float \<Rightarrow> float \<Rightarrow> float" where
  "fsub x y = fadd x (fneg y)"

text \<open>The infinity with the sign of a nonzero real.\<close>

definition inf_of_sign :: "real \<Rightarrow> float" where
  "inf_of_sign a = (if 0 < a then PInf else NInf)"

fun fmul :: "float \<Rightarrow> float \<Rightarrow> float" where
  "fmul (Fin a) (Fin b) = Fin (a * b)"
| "fmul (Fin a) PInf = (if a = 0 then NaN else inf_of_sign a)"
| "fmul (Fin a) NInf = (if a = 0 then NaN else inf_of_sign (- a))"
| "fmul PInf (Fin b) = (if b = 0 then NaN else inf_of_sign b)"
| "fmul NInf (Fin b) = (if b = 0 then NaN else inf_of_sign (- b))"
| "fmul PInf PInf = PInf"
| "fmul NInf NInf = PInf"
| "fmul PInf NInf = NInf"
| "fmul NInf PInf = NInf"
| "fmul NaN y = NaN"
| "fmul x NaN = NaN"

fun fdiv :: "float \<Rightarrow> float \<Rightarrow> float" where
  "fdiv (Fin a) (Fin b) =
     (if b = 0 then (if a = 0 then NaN else inf_of_sign a) else Fin (a / b))"
| "fdiv (Fin a) PInf = Fin 0"
| "fdiv (Fin a) NInf = Fin 0"
| "fdiv PInf (Fin b) = (if 0 \<le> b then PInf else NInf)"
| "fdiv NInf (Fin b) = (if 0 \<le> b then NInf else PInf)"
| "fdiv PInf PInf = NaN"
| "fdiv PInf NInf = NaN"
| "fdiv NInf PInf = NaN"
| "fdiv NInf NInf = NaN"
| "fdiv NaN y = NaN"
| "fdiv x NaN = NaN"

fun fsqrt :: "float \<Rightarrow> float" where
  "fsqrt (Fin a) = (if a < 0 then NaN else Fin (sqrt a))"
| "fsqrt PInf = PInf"
| "fsqrt NInf = NaN"
| "fsqrt NaN = NaN"

text \<open>The comparison \<^verbatim>\<open><\<close>: false as soon as one side is a NaN.\<close>

fun flt :: "float \<Rightarrow> float \<Rightarrow> bool" where
  "flt (Fin a) (Fin b) = (a < b)"
| "flt (Fin a) PInf = True"
| "flt NInf (Fin b) = True"
| "flt NInf PInf = True"
| "flt x y = False"

definition fgt :: "float \<Rightarrow> float \<Rightarrow> bool" where
  "fgt x y = flt y x"

text \<open>The conversion of an \<^verbatim>\<open>int\<close> to \<^verbatim>\<open>float\<close>.\<close>

definition float_of_int :: "int \<Rightarrow> float" where
  "float_of_int i = Fin (of_int i)"

subsection \<open>The conversion to int, and the remainder\<close>

text \<open>
  Converting a \<^verbatim>\<open>float\<close> to \<^verbatim>\<open>int\<close> truncates toward zero. When the truncated
  value is not a value of the 32-bit \<^verbatim>\<open>int\<close> (for a NaN, an infinity and a number out
  of range) C++ leaves the behaviour undefined. The compiled program does not stop
  there: the conversion instruction of the processor (\<^verbatim>\<open>cvttss2si\<close>) returns the
  smallest \<^verbatim>\<open>int\<close>, -2147483648, in each of these cases, and the call goes on with
  it. The model takes this value, so that it has the loop that the program runs for a
  vertical ray and for a ray of length zero.

  The remainder by zero is undefined too; the processor traps on it. It is an error of
  the model.
\<close>

datatype dda_error = Division_By_Zero

definition bind_err :: "dda_error + 'a \<Rightarrow> ('a \<Rightarrow> dda_error + 'b) \<Rightarrow> dda_error + 'b" where
  "bind_err m f = (case m of Inl e \<Rightarrow> Inl e | Inr v \<Rightarrow> f v)"

definition trunc :: "real \<Rightarrow> int" where
  "trunc a = (if 0 \<le> a then \<lfloor>a\<rfloor> else \<lceil>a\<rceil>)"

fun int_of_float :: "float \<Rightarrow> int" where
  "int_of_float (Fin a) =
     (if - 2147483648 \<le> trunc a \<and> trunc a \<le> 2147483647 then trunc a
      else - 2147483648)"
| "int_of_float x = - 2147483648"

text \<open>The operator \<^verbatim>\<open>%\<close> of C++ on \<^verbatim>\<open>int\<close>: the remainder of the truncating division.\<close>

definition rem_int :: "int \<Rightarrow> int \<Rightarrow> dda_error + int" where
  "rem_int a b = (if b = 0 then Inl Division_By_Zero else Inr (a smod b))"

subsection \<open>Vector2d\<close>

type_synonym 'a Vector2d = "'a \<times> 'a"

definition GetLength :: "float Vector2d \<Rightarrow> float" where
  "GetLength v = fsqrt (fadd (fmul (fst v) (fst v)) (fmul (snd v) (snd v)))"

definition Normalize :: "float Vector2d \<Rightarrow> float Vector2d" where
  "Normalize v = (let len = GetLength v in (fdiv (fst v) len, fdiv (snd v) len))"

definition SetLength :: "float Vector2d \<Rightarrow> float \<Rightarrow> float Vector2d" where
  "SetLength v len = (let n = Normalize v in (fmul (fst n) len, fmul (snd n) len))"

subsection \<open>The game\<close>

text \<open>
  The structs of \<^verbatim>\<open>Game.hpp\<close>, with the members that \<^verbatim>\<open>DigitalDifferentialAnalysis\<close>
  and the constructor use; the flags of the event loop, the window and the renderer are
  left out. A member is written without the trailing underscore of the source. An
  \<^verbatim>\<open>int\<close> is modelled by an integer without bound: behind the two guards every
  coordinate is between 0 and 960, or it is the -2147483648 of a conversion, to which
  the program adds nothing (the axis of such a coordinate never advances); the loop
  adds at most 601 steps of the cell size to the other coordinates, far inside 32 bits.
\<close>

record SDL_Rect =
  rect_x :: int
  rect_y :: int
  rect_w :: int
  rect_h :: int

record Cell =
  rect :: SDL_Rect
  is_wall :: bool
  highlighted :: bool

record PlayerBox =
  box :: SDL_Rect
  vx :: int
  vy :: int

record Game =
  cell_size :: int
  cells_width :: int
  cells_height :: int
  board :: "Cell list"
  player :: PlayerBox
  mouse_box :: SDL_Rect
  dda_intersection :: "float \<times> float"

definition screen_width :: int where
  "screen_width = 960"

definition screen_height :: int where
  "screen_height = 640"


text \<open>
  The constructor: a board of \<open>cells_width * cells_height\<close> open cells, cell \<open>index\<close>
  at column \<open>index mod cells_width\<close> and row \<open>index div cells_width\<close>, the two boxes of
  size 10, and no intersection.
\<close>

definition new_cell :: "int \<Rightarrow> int \<Rightarrow> int \<Rightarrow> Cell" where
  "new_cell cs x y =
     \<lparr>rect = \<lparr>rect_x = x * cs, rect_y = y * cs, rect_w = cs, rect_h = cs\<rparr>,
      is_wall = False, highlighted = False\<rparr>"

definition new_Game :: Game where
  "new_Game =
     (let cs = 32; cw = screen_width sdiv cs; ch = screen_height sdiv cs; box_size = 10 in
      \<lparr>cell_size = cs, cells_width = cw, cells_height = ch,
       board = map (\<lambda>index. new_cell cs (int index mod cw) (int index div cw))
                  [0 ..< nat (cw * ch)],
       player = \<lparr>box = \<lparr>rect_x = (screen_width * 1 sdiv 3) - (box_size sdiv 2),
                            rect_y = (screen_height sdiv 2) - (box_size sdiv 2),
                            rect_w = box_size, rect_h = box_size\<rparr>,
                  vx = 0, vy = 0\<rparr>,
       mouse_box = \<lparr>rect_x = (screen_width * 2 sdiv 3) - (box_size sdiv 2),
                     rect_y = (screen_height sdiv 2) - (box_size sdiv 2),
                     rect_w = box_size, rect_h = box_size\<rparr>,
       dda_intersection = (Fin (- 1), Fin (- 1))\<rparr>)"

section \<open>Game::DigitalDifferentialAnalysis\<close>

subsection \<open>The local variables\<close>

text \<open>
  The state of a call: the game it runs on (the members \<open>cell_size\<close>, \<open>cells_width\<close> and
  \<open>board\<close> are read in the loop, and \<open>board\<close> is written there) and the local
  variables.
\<close>

record dda_vars =
  game :: Game
  ray_start :: "float Vector2d"
  ray_dir :: "float Vector2d"
  unit_ray_dir :: "float Vector2d"
  ray_step_size :: "float Vector2d"
  step :: "int Vector2d"
  map_check :: "int Vector2d"
  ray_length :: "float Vector2d"
  max_distance :: float
  distance :: float
  tile_found :: bool

subsection \<open>The two guards\<close>

text \<open>The centre of a box: \<^verbatim>\<open>static_cast<float>(box.x + (box.w / 2))\<close>, and the same in y.\<close>

definition center :: "SDL_Rect \<Rightarrow> float Vector2d" where
  "center r = (float_of_int (rect_x r + (rect_w r sdiv 2)),
               float_of_int (rect_y r + (rect_h r sdiv 2)))"

definition out_of_screen :: "float Vector2d \<Rightarrow> bool" where
  "out_of_screen p \<longleftrightarrow>
     flt (fst p) (float_of_int 0) \<or> fgt (fst p) (float_of_int screen_width) \<or>
     flt (snd p) (float_of_int 0) \<or> fgt (snd p) (float_of_int screen_height)"

subsection \<open>The set-up of the ray\<close>

text \<open>The two square roots of the step size, each scaled by the cell size.\<close>

definition step_size_of :: "float Vector2d \<Rightarrow> int \<Rightarrow> float Vector2d" where
  "step_size_of rd cs =
     (let qx = fdiv (snd rd) (fst rd); qy = fdiv (fst rd) (snd rd) in
      (fmul (fsqrt (fadd (float_of_int 1) (fmul qx qx))) (float_of_int cs),
       fmul (fsqrt (fadd (float_of_int 1) (fmul qy qy))) (float_of_int cs)))"

text \<open>
  The source has the same block once for x and once for y: from the component \<open>d\<close> of
  \<open>ray_dir\<close>, the component \<open>s\<close> of \<open>ray_start\<close> and its integer part \<open>si\<close>, the
  component \<open>mc\<close> of \<open>map_check\<close> and the step size \<open>ss\<close> of the axis, it gives the
  component of \<open>step\<close> and of \<open>ray_length\<close>. The cell size is not zero here.
\<close>

definition axis_init :: "int \<Rightarrow> float \<Rightarrow> float \<Rightarrow> int \<Rightarrow> int \<Rightarrow> float \<Rightarrow> int \<times> float" where
  "axis_init cs d s si mc ss =
     (if flt d (float_of_int 0) then
        (- cs,
         if si smod cs = 0 then ss
         else fmul (fdiv (fsub s (float_of_int mc)) (float_of_int cs)) ss)
      else
        (cs, fmul (fdiv (fsub (float_of_int (mc + cs)) s) (float_of_int cs)) ss))"

text \<open>
  The adjustment of \<open>map_check\<close> before the loop: both branches assign the truncated
  \<open>x_intersection.x\<close>, and the second one the truncated \<open>y_intersection.y\<close> when the ray
  goes up. \<open>siy\<close> is the integer part of \<open>ray_start.y\<close>.
\<close>

definition adjust_map_check ::
  "int \<Rightarrow> float Vector2d \<Rightarrow> float Vector2d \<Rightarrow> float Vector2d \<Rightarrow> float Vector2d \<Rightarrow> int \<Rightarrow>
   int Vector2d \<Rightarrow> int Vector2d" where
  "adjust_map_check cs rs rd u rl siy mc =
     (let x_intersection = (fadd (fst rs) (fmul (fst u) (fst rl)),
                            fadd (snd rs) (fmul (snd u) (fst rl)));
          y_intersection = (fadd (fst rs) (fmul (fst u) (snd rl)),
                            fadd (snd rs) (fmul (snd u) (snd rl)))
      in
      if flt (fst rl) (snd rl) then
        (let mx = int_of_float (fst x_intersection);
             mx = (if fgt (fst rd) (float_of_int 0) then mx - cs else mx);
             my = (if siy smod cs = 0 \<and> flt (snd rd) (float_of_int 0)
                   then snd mc - cs else snd mc)
         in (mx, my))
      else
        (let mx = int_of_float (fst x_intersection);
             mx = (if fgt (fst rd) (float_of_int 0) then mx - cs else mx);
             my = (if flt (snd rd) (float_of_int 0)
                   then int_of_float (snd y_intersection) else snd mc)
         in (mx, my)))"

definition dda_init :: "Game \<Rightarrow> float Vector2d \<Rightarrow> float Vector2d \<Rightarrow> dda_error + dda_vars" where
  "dda_init g player_pos mouse_pos =
     (let cs = cell_size g;
          rs = (fst player_pos, snd player_pos);
          d = (fsub (fst mouse_pos) (fst player_pos), fsub (snd mouse_pos) (snd player_pos));
          rd = SetLength d (float_of_int cs);
          u = SetLength d (Fin 1);
          ss = step_size_of rd cs;
          six = int_of_float (fst rs);
          siy = int_of_float (snd rs)
      in
      bind_err (rem_int six cs) (\<lambda>remx.
      bind_err (rem_int siy cs) (\<lambda>remy.
        let mc = (six - remx, siy - remy);
            ax = axis_init cs (fst rd) (fst rs) six (fst mc) (fst ss);
            ay = axis_init cs (snd rd) (snd rs) siy (snd mc) (snd ss);
            rl = (snd ax, snd ay)
        in
        Inr \<lparr>game = g,
             ray_start = rs, ray_dir = rd, unit_ray_dir = u, ray_step_size = ss,
             step = (fst ax, fst ay), map_check = adjust_map_check cs rs rd u rl siy mc,
             ray_length = rl,
             max_distance = fmul (float_of_int (max screen_width screen_height)) (Fin 10),
             distance = Fin 0, tile_found = False\<rparr>)))"

subsection \<open>The traversal loop\<close>

text \<open>The first half of the loop body: one axis advances.\<close>

definition advance :: "dda_vars \<Rightarrow> dda_vars" where
  "advance v =
     (if flt (fst (ray_length v)) (snd (ray_length v)) then
        v\<lparr>map_check := (fst (map_check v) + fst (step v), snd (map_check v)),
          distance := fst (ray_length v),
          ray_length := (fadd (fst (ray_length v)) (fst (ray_step_size v)),
                         snd (ray_length v))\<rparr>
      else
        v\<lparr>map_check := (fst (map_check v), snd (map_check v) + snd (step v)),
          distance := snd (ray_length v),
          ray_length := (fst (ray_length v),
                         fadd (snd (ray_length v)) (snd (ray_step_size v)))\<rparr>)"

text \<open>The flat index of the cell under \<open>map_check\<close>, with the truncating division of C++.\<close>

definition tile_index :: "dda_vars \<Rightarrow> int" where
  "tile_index v =
     (let x_index = fst (map_check v) sdiv cell_size (game v);
          y_index = snd (map_check v) sdiv cell_size (game v)
      in y_index * cells_width (game v) + x_index)"

text \<open>The second half: the wall test, guarded by the range of the flat index alone.\<close>

definition check_tile :: "dda_vars \<Rightarrow> dda_vars" where
  "check_tile v =
     (let index = tile_index v in
      if 0 \<le> index \<and> index < int (length (board (game v))) then
        (if is_wall (board (game v) ! nat index)
         then v\<lparr>game := (game v)\<lparr>board := (board (game v))
                  [nat index := (board (game v) ! nat index)\<lparr>highlighted := True\<rparr>]\<rparr>,
                tile_found := True\<rparr>
         else v)
      else v)"

definition loop_body :: "dda_vars \<Rightarrow> dda_vars" where
  "loop_body v = check_tile (advance v)"

definition loop_cond :: "dda_vars \<Rightarrow> bool" where
  "loop_cond v \<longleftrightarrow> \<not> tile_found v \<and> flt (distance v) (max_distance v)"

text \<open>The loop; \<open>None\<close> stands for a loop that never ends.\<close>

partial_function (option) dda_loop :: "dda_vars \<Rightarrow> dda_vars option" where
  "dda_loop v = (if loop_cond v then dda_loop (loop_body v) else Some v)"

subsection \<open>The whole function\<close>

text \<open>After the loop: the intersection point of a hit, or the point (-1, -1).\<close>

definition finish :: "dda_vars \<Rightarrow> Game" where
  "finish v =
     (game v)\<lparr>dda_intersection :=
         (if tile_found v then
            (fadd (fst (ray_start v)) (fmul (fst (unit_ray_dir v)) (distance v)),
             fadd (snd (ray_start v)) (fmul (snd (unit_ray_dir v)) (distance v)))
          else (Fin (- 1), Fin (- 1)))\<rparr>"

text \<open>
  The call between the two guards and the final assignment: the set-up and the loop.
  The result is \<open>None\<close> when the loop does not end, \<open>Some (Inl e)\<close> when the call
  divides by a cell size of zero, and \<open>Some (Inr v)\<close> with the state after the loop
  otherwise.
\<close>

definition dda_run :: "Game \<Rightarrow> (dda_error + dda_vars) option" where
  "dda_run g =
     (case dda_init g (center (box (player g))) (center (mouse_box g)) of
        Inl e \<Rightarrow> Some (Inl e)
      | Inr v \<Rightarrow> (case dda_loop v of None \<Rightarrow> None | Some v' \<Rightarrow> Some (Inr v')))"

definition DigitalDifferentialAnalysis :: "Game \<Rightarrow> (dda_error + Game) option" where
  "DigitalDifferentialAnalysis g =
     (let player_pos = center (box (player g));
          mouse_pos = center (mouse_box g)
      in
      if out_of_screen player_pos then Some (Inr g)
      else if out_of_screen mouse_pos then Some (Inr g)
      else
        (case dda_run g of
           None \<Rightarrow> None
         | Some (Inl e) \<Rightarrow> Some (Inl e)
         | Some (Inr v) \<Rightarrow> Some (Inr (finish v))))"

subsection \<open>What a call reports\<close>

text \<open>
  The function returns nothing; what a call reports is read from what it does. A call
  that returns at a guard has cast no ray and written nothing: it is aborted. A call
  that passes the guards reports a hit by \<open>tile_found\<close>: the column and row of the
  struck map cell, the intersection point it stores and the distance; it reports a miss
  by the point (-1, -1).
\<close>

datatype IntersectionResult = Hit "int \<times> int" "float \<times> float" float | Miss | Aborted

definition tile_xy :: "dda_vars \<Rightarrow> int \<times> int" where
  "tile_xy v = (fst (map_check v) sdiv cell_size (game v),
                snd (map_check v) sdiv cell_size (game v))"

definition result_of :: "dda_vars \<Rightarrow> IntersectionResult" where
  "result_of v =
     (if tile_found v then Hit (tile_xy v) (dda_intersection (finish v)) (distance v)
      else Miss)"

definition Cast :: "Game \<Rightarrow> (dda_error + IntersectionResult) option" where
  "Cast g =
     (let player_pos = center (box (player g));
          mouse_pos = center (mouse_box g)
      in
      if out_of_screen player_pos then Some (Inr Aborted)
      else if out_of_screen mouse_pos then Some (Inr Aborted)
      else
        (case dda_run g of
           None \<Rightarrow> None
         | Some (Inl e) \<Rightarrow> Some (Inl e)
         | Some (Inr v) \<Rightarrow> Some (Inr (result_of v))))"

section \<open>Concrete games\<close>

text \<open>
  The constructed game after the player's box and the mouse box have been moved to the
  given corners and the cells of the given flat indices have been made walls.
\<close>

definition game_with :: "int \<times> int \<Rightarrow> int \<times> int \<Rightarrow> nat list \<Rightarrow> Game" where
  "game_with p m ws =
     new_Game\<lparr>
       board := fold (\<lambda>i b. b[i := (b ! i)\<lparr>is_wall := True\<rparr>]) ws (board new_Game),
       player := (player new_Game)\<lparr>box := (box (player new_Game))\<lparr>rect_x := fst p, rect_y := snd p\<rparr>\<rparr>,
       mouse_box := (mouse_box new_Game)\<lparr>rect_x := fst m, rect_y := snd m\<rparr>\<rparr>"

text \<open>The board of \<open>g\<close> with the cell of flat index \<open>i\<close> highlighted.\<close>

definition highlight :: "nat \<Rightarrow> Game \<Rightarrow> Game" where
  "highlight i g = g\<lparr>board := (board g)[i := (board g ! i)\<lparr>highlighted := True\<rparr>]\<rparr>"

text \<open>
  A state of the loop in which the two accumulators are equal: the player's centre in
  the corner (160, 160) of a cell, the target at (192, 192), the ray along the diagonal, both
  accumulators at one diagonal of a cell. It is the state with which the loop starts in
  that game; the two accumulators are results of the same operations on the same
  numbers, so they are equal in binary32 as well.
\<close>

definition tie_vars :: dda_vars where
  "tie_vars =
     \<lparr>game = game_with (155, 155) (187, 187) [],
      ray_start = (Fin 160, Fin 160), ray_dir = (Fin (32 / sqrt 2), Fin (32 / sqrt 2)),
      unit_ray_dir = (Fin (1 / sqrt 2), Fin (1 / sqrt 2)),
      ray_step_size = (Fin (32 * sqrt 2), Fin (32 * sqrt 2)),
      step = (32, 32), map_check = (160, 160),
      ray_length = (Fin (32 * sqrt 2), Fin (32 * sqrt 2)),
      max_distance = Fin 9600, distance = Fin 0, tile_found = False\<rparr>"

text \<open>
  The scenario of the specification: a wall at cell (10, 5), flat index 160, the player's
  centre at (0, 176) and the centre of the mouse box at (640, 176).
\<close>

definition scenario_game :: Game where
  "scenario_game = game_with (- 5, 171) (635, 171) [160]"

text \<open>The local variables with which the loop starts in the scenario.\<close>

definition scenario_vars :: dda_vars where
  "scenario_vars =
     \<lparr>game = scenario_game,
      ray_start = (Fin 0, Fin 176), ray_dir = (Fin 32, Fin 0),
      unit_ray_dir = (Fin 1, Fin 0), ray_step_size = (Fin 32, PInf),
      step = (32, 32), map_check = (0, 160), ray_length = (Fin 32, PInf),
      max_distance = Fin 9600, distance = Fin 0, tile_found = False\<rparr>"

text \<open>
  Two ticks of a game with a wall at cell (10, 5) and the mouse box at (640, 175), the
  left button held and the player moving left by 5 pixels a tick. In the first the
  player's centre is at (0, 175). In the second it is at (-5, 175), left of the screen;
  the struck cell is highlighted and the intersection point of the first tick is stored.
\<close>

definition hit_tick_game :: Game where
  "hit_tick_game = game_with (- 5, 170) (635, 170) [160]"

definition stale_game :: Game where
  "stale_game =
     (highlight 160 (game_with (- 10, 170) (635, 170) [160]))
       \<lparr>dda_intersection := (Fin 320, Fin 175)\<rparr>"

text \<open>
  A ray along row 5 that leaves the board on the right: the player's centre at (15, 175),
  the centre of the mouse box at (47, 175), and one wall, at column 0 of row 6 (flat
  index 180).
\<close>

definition wrap_game :: Game where
  "wrap_game = game_with (10, 170) (42, 170) [180]"

text \<open>
  A vertical ray: the player's centre at (175, 15), the centre of the mouse box below it
  at (175, 47), and a wall on the way, at cell (5, 10) (flat index 305).
\<close>

definition vertical_game :: Game where
  "vertical_game = game_with (170, 10) (170, 42) [305]"


text \<open>
  A wall at cell (10, 5), the player's centre at (15, 175) and the centre of the mouse
  box one cell to the right of it, at (47, 175).
\<close>

definition near_target_game :: Game where
  "near_target_game = game_with (10, 170) (42, 170) [160]"

text \<open>
  The distance from the origin to the target: the length of the vector from the
  player's centre to the centre of the mouse box, as \<open>Normalize\<close> computes it.
\<close>

definition target_distance :: "Game \<Rightarrow> float" where
  "target_distance g =
     GetLength (fsub (fst (center (mouse_box g))) (fst (center (box (player g)))),
                fsub (snd (center (mouse_box g))) (snd (center (box (player g)))))"

text \<open>
  What a call reads of the game: the cell size and the width of the board, the two
  boxes, and the wall flags of the cells.
\<close>

definition same_inputs :: "Game \<Rightarrow> Game \<Rightarrow> bool" where
  "same_inputs g1 g2 \<longleftrightarrow>
     cell_size g1 = cell_size g2 \<and> cells_width g1 = cells_width g2 \<and>
     box (player g1) = box (player g2) \<and> mouse_box g1 = mouse_box g2 \<and>
     map is_wall (board g1) = map is_wall (board g2)"

text \<open>Two states of the loop with the same local variables, on games with the same inputs.\<close>

definition same_locals :: "dda_vars \<Rightarrow> dda_vars \<Rightarrow> bool" where
  "same_locals v w \<longleftrightarrow> same_inputs (game v) (game w) \<and> w = v\<lparr>game := game w\<rparr>"



text \<open>
  For the termination of the loop. A step size is good for the bound \<open>c\<close> when it is at
  least \<open>c\<close>, or infinite, or a NaN. An accumulator below the ceiling \<open>M\<close> can be
  advanced by such steps at most \<open>steps_left c M\<close> times before it reaches \<open>M\<close>.
\<close>

fun step_ok :: "real \<Rightarrow> float \<Rightarrow> bool" where
  "step_ok c (Fin a) = (c \<le> a)"
| "step_ok c NInf = False"
| "step_ok c x = True"

fun steps_left :: "real \<Rightarrow> real \<Rightarrow> float \<Rightarrow> nat" where
  "steps_left c M (Fin a) = nat \<lceil>(M - a) / c\<rceil>"
| "steps_left c M x = 0"

definition growing :: "real \<Rightarrow> real \<Rightarrow> dda_vars \<Rightarrow> bool" where
  "growing c M v \<longleftrightarrow>
     step_ok c (fst (ray_step_size v)) \<and> step_ok c (snd (ray_step_size v)) \<and>
     fst (ray_length v) \<noteq> NInf \<and> snd (ray_length v) \<noteq> NInf \<and> max_distance v = Fin M"

definition iterations_left :: "real \<Rightarrow> real \<Rightarrow> dda_vars \<Rightarrow> nat" where
  "iterations_left c M v =
     (if loop_cond v
      then 1 + steps_left c M (fst (ray_length v)) + steps_left c M (snd (ray_length v))
      else 0)"


text \<open>
  The second scenario of the specification, the far diagonal over a board without
  walls: the player's centre at (0, 0), the centre of the mouse box at (959, 639).
\<close>

definition diagonal_game :: Game where
  "diagonal_game = game_with (- 5, - 5) (954, 634) []"

text \<open>
  The sizes that the constructor sets and nothing changes afterwards.
\<close>

definition constructed_sizes :: "Game \<Rightarrow> bool" where
  "constructed_sizes g \<longleftrightarrow>
     cell_size g = 32 \<and> cells_width g = 30 \<and> cells_height g = 20 \<and> length (board g) = 600"


text \<open>
  The local variables of a vertical ray downwards during the loop, on the game \<open>g\<close> and
  from an origin with the ordinate \<open>b\<close>: no tile is found, \<open>map_check.x\<close> is the
  -2147483648 of the conversion of the NaN \<open>x_intersection.x\<close>, the accumulator of x is
  infinite, the accumulator of y is the distance from the origin to the grid line below
  \<open>map_check.y\<close>, and the distance is zero (before the first iteration) or the distance
  from the origin to the grid line at \<open>map_check.y\<close>.
\<close>

definition vertical_inv :: "Game \<Rightarrow> int \<Rightarrow> dda_vars \<Rightarrow> bool" where
  "vertical_inv g b v \<longleftrightarrow>
     game v = g \<and> \<not> tile_found v \<and> step v = (32, 32) \<and>
     fst (map_check v) = - 2147483648 \<and> 0 \<le> snd (map_check v) \<and>
     ray_step_size v = (PInf, Fin 32) \<and> max_distance v = Fin 9600 \<and>
     ray_length v = (PInf, Fin (of_int (snd (map_check v) + 32 - b))) \<and>
     (distance v = Fin 0 \<and> snd (map_check v) \<le> b \<or>
      distance v = Fin (of_int (snd (map_check v) - b)))"

section \<open>The first wall cell of a ray, in the words of the specification\<close>

text \<open>
  These four definitions are not taken from the source. They say what the specification
  means by the first wall cell on the straight-line path of a ray, so that the claim
  about it can be stated: the cell that contains a point, the point of the ray from \<open>a\<close>
  towards \<open>t\<close> at the parameter \<open>s\<close>, a wall cell of the board, and the wall cell that
  the ray meets before every other. A cell is closed on its left and upper edge and open
  on the other two, so a ray to the left or upwards has no first point in a cell it
  enters; \<open>c\<close> is the first wall cell when it is a wall cell, some point of the ray lies
  in it, and no point of the ray before that one lies in another wall cell.
\<close>

definition spec_cell_of :: "int \<Rightarrow> real \<times> real \<Rightarrow> int \<times> int" where
  "spec_cell_of cs q = (\<lfloor>fst q / of_int cs\<rfloor>, \<lfloor>snd q / of_int cs\<rfloor>)"

definition spec_ray_point :: "real \<times> real \<Rightarrow> real \<times> real \<Rightarrow> real \<Rightarrow> real \<times> real" where
  "spec_ray_point a t s = (fst a + s * (fst t - fst a), snd a + s * (snd t - snd a))"

definition spec_wall_at :: "Game \<Rightarrow> int \<times> int \<Rightarrow> bool" where
  "spec_wall_at g c \<longleftrightarrow>
     0 \<le> fst c \<and> fst c < cells_width g \<and> 0 \<le> snd c \<and> snd c < cells_height g \<and>
     is_wall (board g ! nat (snd c * cells_width g + fst c))"

definition spec_first_wall_cell :: "Game \<Rightarrow> real \<times> real \<Rightarrow> real \<times> real \<Rightarrow> int \<times> int \<Rightarrow> bool" where
  "spec_first_wall_cell g a t c \<longleftrightarrow>
     spec_wall_at g c \<and>
     (\<exists>s. 0 \<le> s \<and> spec_cell_of (cell_size g) (spec_ray_point a t s) = c \<and>
        \<not> (\<exists>s'. 0 \<le> s' \<and> s' < s \<and>
               spec_cell_of (cell_size g) (spec_ray_point a t s') \<noteq> c \<and>
               spec_wall_at g (spec_cell_of (cell_size g) (spec_ray_point a t s'))))"

section \<open>The loop\<close>

lemma dda_loop_continue: "loop_cond v \<Longrightarrow> dda_loop v = dda_loop (loop_body v)"
  by (subst dda_loop.simps) simp

lemma dda_loop_stop: "\<not> loop_cond v \<Longrightarrow> dda_loop v = Some v"
  by (subst dda_loop.simps) simp

text \<open>The rule of the loop: an invariant holds at the exit, where the condition is false.\<close>

lemma dda_loop_rule:
  assumes run: "dda_loop v = Some v'"
    and init: "I v"
    and step: "\<And>w. I w \<Longrightarrow> loop_cond w \<Longrightarrow> I (loop_body w)"
  shows "I v' \<and> \<not> loop_cond v'"
proof -
  have "I v \<longrightarrow> I v' \<and> \<not> loop_cond v'"
  proof (rule dda_loop.raw_induct
      [where P = "\<lambda>v v'. I v \<longrightarrow> I v' \<and> \<not> loop_cond v'", OF _ run])
    fix f w w'
    assume IH: "\<And>x y. f x = Some y \<Longrightarrow> I x \<longrightarrow> I y \<and> \<not> loop_cond y"
      and eq: "(if loop_cond w then f (loop_body w) else Some w) = Some w'"
    show "I w \<longrightarrow> I w' \<and> \<not> loop_cond w'"
    proof (cases "loop_cond w")
      case True
      with eq have "f (loop_body w) = Some w'" by simp
      from IH [OF this] True show ?thesis by (blast intro: step)
    next
      case False
      with eq show ?thesis by simp
    qed
  qed
  with init show ?thesis by simp
qed

lemmas eval_defs =
  dda_init_def Let_def SetLength_def Normalize_def GetLength_def float_of_int_def
  step_size_of_def bind_err_def trunc_def rem_int_def axis_init_def adjust_map_check_def
  fsub_def inf_of_sign_def fgt_def screen_width_def screen_height_def game_with_def
  new_Game_def signed_modulo_int_def signed_divide_int_def center_def dda_run_def
  loop_cond_def loop_body_def advance_def check_tile_def tile_index_def new_cell_def
  Cast_def result_of_def finish_def tile_xy_def out_of_screen_def
  DigitalDifferentialAnalysis_def highlight_def

section \<open>One iteration\<close>

lemma check_tile_locals:
  "map_check (check_tile v) = map_check v" "distance (check_tile v) = distance v"
  "ray_length (check_tile v) = ray_length v" "step (check_tile v) = step v"
  "ray_step_size (check_tile v) = ray_step_size v"
  "max_distance (check_tile v) = max_distance v"
  "ray_start (check_tile v) = ray_start v" "unit_ray_dir (check_tile v) = unit_ray_dir v"
  "ray_dir (check_tile v) = ray_dir v"
  by (simp_all add: check_tile_def Let_def)

lemma sqrt_2048: "sqrt 2048 = 32 * sqrt 2"
proof -
  have "sqrt 2048 = sqrt (32\<^sup>2 * 2)" by simp
  also have "\<dots> = 32 * sqrt 2" by (simp only: real_sqrt_mult real_sqrt_abs abs_numeral)
  finally show ?thesis .
qed

lemma tie_vars_reached:
  "dda_init (game tie_vars) (center (box (player (game tie_vars))))
     (center (mouse_box (game tie_vars))) = Inr tie_vars"
  by (simp add: eval_defs tie_vars_def sqrt_2048)

text \<open>
  C7, as the code has it. An iteration advances the x axis when \<open>ray_length.x\<close> is
  smaller than \<open>ray_length.y\<close>, and the y axis otherwise, so also when the two are equal
  (and when one of them is a NaN): the map coordinate of that axis moves by the step of
  the axis, the accumulator before the step becomes the distance, and the step size of
  the axis is added to the accumulator. The other axis keeps its map coordinate and its
  accumulator.
\<close>

theorem iteration_advances_one_axis:
  "(flt (fst (ray_length v)) (snd (ray_length v)) \<longrightarrow>
      map_check (loop_body v) = (fst (map_check v) + fst (step v), snd (map_check v)) \<and>
      distance (loop_body v) = fst (ray_length v) \<and>
      ray_length (loop_body v) =
        (fadd (fst (ray_length v)) (fst (ray_step_size v)), snd (ray_length v))) \<and>
   (\<not> flt (fst (ray_length v)) (snd (ray_length v)) \<longrightarrow>
      map_check (loop_body v) = (fst (map_check v), snd (map_check v) + snd (step v)) \<and>
      distance (loop_body v) = snd (ray_length v) \<and>
      ray_length (loop_body v) =
        (fst (ray_length v), fadd (snd (ray_length v)) (snd (ray_step_size v))))"
  by (simp add: loop_body_def check_tile_locals advance_def)

theorem iteration_advances_one_axis_witness:
  "flt (fst (ray_length scenario_vars)) (snd (ray_length scenario_vars)) \<and>
   map_check (loop_body scenario_vars) = (32, 160) \<and>
   distance (loop_body scenario_vars) = Fin 32 \<and>
   ray_length (loop_body scenario_vars) = (Fin 64, PInf) \<and>
   \<not> flt (fst (ray_length tie_vars)) (snd (ray_length tie_vars)) \<and>
   map_check (loop_body tie_vars) = (160, 192) \<and>
   distance (loop_body tie_vars) = Fin (32 * sqrt 2) \<and>
   ray_length (loop_body tie_vars) = (Fin (32 * sqrt 2), Fin (64 * sqrt 2))"
  using iteration_advances_one_axis [of scenario_vars]
    iteration_advances_one_axis [of tie_vars]
  by (simp add: tie_vars_def scenario_vars_def)

text \<open>
  The claim C7 as stated is false at the tie: the x axis does not advance there (its map
  coordinate and its accumulator stay), only the y axis does.
\<close>

theorem tie_advances_y_only:
  "fst (ray_length tie_vars) = snd (ray_length tie_vars) \<and>
   fst (map_check (loop_body tie_vars)) = fst (map_check tie_vars) \<and>
   fst (ray_length (loop_body tie_vars)) = fst (ray_length tie_vars) \<and>
   fst (step tie_vars) \<noteq> 0 \<and>
   snd (map_check (loop_body tie_vars)) = snd (map_check tie_vars) + snd (step tie_vars)"
  by (simp add: tie_vars_def loop_body_def check_tile_locals advance_def)

section \<open>The guards\<close>

lemma aborted_call_changes_nothing:
  "out_of_screen (center (box (player g))) \<or> out_of_screen (center (mouse_box g)) \<Longrightarrow>
   DigitalDifferentialAnalysis g = Some (Inr g)"
  by (auto simp: DigitalDifferentialAnalysis_def Let_def)

lemma aborted_cast:
  "out_of_screen (center (box (player g))) \<or> out_of_screen (center (mouse_box g)) \<Longrightarrow>
   Cast g = Some (Inr Aborted)"
  by (auto simp: Cast_def Let_def)

lemma passed_guards:
  assumes "\<not> out_of_screen (center (box (player g)))"
    and "\<not> out_of_screen (center (mouse_box g))"
  shows "DigitalDifferentialAnalysis g = map_option (map_sum id finish) (dda_run g)"
    and "Cast g = map_option (map_sum id result_of) (dda_run g)"
  using assms
  by (auto simp: DigitalDifferentialAnalysis_def Cast_def Let_def
      split: option.splits sum.splits)

lemma hit_tick_call:
  "DigitalDifferentialAnalysis hit_tick_game =
   Some (Inr ((highlight 160 hit_tick_game)\<lparr>dda_intersection := (Fin 320, Fin 175)\<rparr>))"
  by (simp add: hit_tick_game_def eval_defs dda_loop_continue dda_loop_stop)

lemma stale_game_is_next_tick:
  "stale_game =
   ((highlight 160 hit_tick_game)\<lparr>dda_intersection := (Fin 320, Fin 175)\<rparr>)
     \<lparr>player := (player hit_tick_game)
        \<lparr>box := (box (player hit_tick_game))
           \<lparr>rect_x := rect_x (box (player hit_tick_game)) + (- 5)\<rparr>\<rparr>\<rparr>"
  by (simp add: stale_game_def hit_tick_game_def eval_defs)

text \<open>
  C4 at a game the program reaches: \<open>stale_game\<close> is the game after the call of the
  first tick with the player moved on by 5 pixels. The player is out of the screen, the
  call returns at the first guard, and the game is as before: the intersection point of
  the earlier hit stays stored (and drawn), where a miss stores (-1, -1).
\<close>

theorem guard_keeps_earlier_hit:
  "out_of_screen (center (box (player stale_game))) \<and>
   DigitalDifferentialAnalysis stale_game = Some (Inr stale_game) \<and>
   dda_intersection stale_game = (Fin 320, Fin 175) \<and>
   dda_intersection stale_game \<noteq> (Fin (- 1), Fin (- 1))"
  by (simp add: stale_game_def eval_defs)

section \<open>The board after a call\<close>

lemma check_tile_cases:
  "(tile_found (check_tile v) = tile_found v \<and> game (check_tile v) = game v) \<or>
   (tile_found (check_tile v) \<and> 0 \<le> tile_index v \<and>
    nat (tile_index v) < length (board (game v)) \<and>
    is_wall (board (game v) ! nat (tile_index v)) \<and>
    game (check_tile v) = highlight (nat (tile_index v)) (game v))"
  by (auto simp: check_tile_def Let_def highlight_def)

lemma tile_index_check_tile: "tile_index (check_tile v) = tile_index v"
  by (simp add: check_tile_def tile_index_def Let_def)

lemma advance_game: "game (advance v) = game v" "tile_found (advance v) = tile_found v"
  by (simp_all add: advance_def)

text \<open>The state of the board during the loop, relative to the game \<open>g\<close> of the call.\<close>

lemma loop_body_frame:
  assumes "\<not> tile_found w" "game w = g"
  shows "(\<not> tile_found (loop_body w) \<and> game (loop_body w) = g) \<or>
         (tile_found (loop_body w) \<and> 0 \<le> tile_index (loop_body w) \<and>
          nat (tile_index (loop_body w)) < length (board g) \<and>
          is_wall (board g ! nat (tile_index (loop_body w))) \<and>
          game (loop_body w) = highlight (nat (tile_index (loop_body w))) g)"
  using check_tile_cases [of "advance w"] assms
  by (auto simp: loop_body_def advance_game tile_index_check_tile)

lemma dda_loop_frame:
  assumes "dda_loop v = Some v'" "\<not> tile_found v" "game v = g"
  shows "(\<not> tile_found v' \<and> game v' = g) \<or>
         (tile_found v' \<and> 0 \<le> tile_index v' \<and> nat (tile_index v') < length (board g) \<and>
          is_wall (board g ! nat (tile_index v')) \<and>
          game v' = highlight (nat (tile_index v')) g)"
proof -
  let ?I = "\<lambda>w. (\<not> tile_found w \<and> game w = g) \<or>
         (tile_found w \<and> 0 \<le> tile_index w \<and> nat (tile_index w) < length (board g) \<and>
          is_wall (board g ! nat (tile_index w)) \<and>
          game w = highlight (nat (tile_index w)) g)"
  have "?I v' \<and> \<not> loop_cond v'"
  proof (rule dda_loop_rule [OF assms(1), where I = ?I])
    show "?I v" using assms by simp
  next
    fix w assume "?I w" "loop_cond w"
    then have "\<not> tile_found w" "game w = g" by (auto simp: loop_cond_def)
    then show "?I (loop_body w)" by (rule loop_body_frame)
  qed
  then show ?thesis by simp
qed

lemma dda_init_game:
  "dda_init g p m = Inr v \<Longrightarrow> game v = g \<and> \<not> tile_found v"
  by (auto simp: dda_init_def Let_def bind_err_def split: sum.splits)

lemma dda_run_frame:
  assumes "dda_run g = Some (Inr v)"
  shows "(\<not> tile_found v \<and> game v = g) \<or>
         (tile_found v \<and> 0 \<le> tile_index v \<and> nat (tile_index v) < length (board g) \<and>
          is_wall (board g ! nat (tile_index v)) \<and>
          game v = highlight (nat (tile_index v)) g)"
proof -
  from assms obtain v0 where
    v0: "dda_init g (center (box (player g))) (center (mouse_box g)) = Inr v0"
    and run: "dda_loop v0 = Some v"
    by (auto simp: dda_run_def split: sum.splits option.splits)
  from dda_init_game [OF v0] run show ?thesis
    by (intro dda_loop_frame) auto
qed


lemma scenario_call:
  "DigitalDifferentialAnalysis scenario_game =
   Some (Inr ((highlight 160 scenario_game)\<lparr>dda_intersection := (Fin 320, Fin 176)\<rparr>))"
  by (simp add: scenario_game_def eval_defs dda_loop_continue dda_loop_stop)




section \<open>Cells off the board\<close>

text \<open>
  C2 at a ray that leaves the board. The board is 30 cells wide. After 30 steps the map
  cell is column 30 of row 5, right of the board; its flat index 5 * 30 + 30 = 180 is
  in the range of the board, so the cell of that index (column 0 of row 6) is tested,
  found to be a wall and highlighted, and the call reports a hit at (960, 175).
\<close>

theorem off_board_cell_is_hit:
  "cells_width wrap_game = 30 \<and>
   center (box (player wrap_game)) = (Fin 15, Fin 175) \<and>
   center (mouse_box wrap_game) = (Fin 47, Fin 175) \<and>
   Cast wrap_game = Some (Inr (Hit (30, 5) (Fin 960, Fin 175) (Fin 945))) \<and>
   DigitalDifferentialAnalysis wrap_game =
     Some (Inr ((highlight 180 wrap_game)\<lparr>dda_intersection := (Fin 960, Fin 175)\<rparr>))"
  by (simp add: wrap_game_def eval_defs dda_loop_continue dda_loop_stop)

section \<open>The ray of length zero\<close>


lemma sdiv_nonneg: "0 \<le> a \<Longrightarrow> a sdiv 32 = a div 32" for a :: int
  by (cases "a = 0") (simp_all add: signed_divide_int_def sgn_if)

lemma sdiv_int_min: "(- 2147483648 :: int) sdiv 32 = - 67108864"
  by (simp add: signed_divide_int_def)

lemma check_tile_negative: "tile_index v < 0 \<Longrightarrow> check_tile v = v"
  by (simp add: check_tile_def Let_def)

lemma center_int:
  "center r = (Fin (of_int (rect_x r + (rect_w r sdiv 2))), Fin (of_int (rect_y r + (rect_h r sdiv 2))))"
  by (simp add: center_def float_of_int_def)

lemma in_screen_bounds:
  assumes "\<not> out_of_screen (Fin (of_int a), Fin (of_int b))"
  shows "0 \<le> a" "a \<le> 960" "0 \<le> b" "b \<le> 640"
  using assms
  by (simp_all add: out_of_screen_def float_of_int_def fgt_def screen_width_def screen_height_def)






section \<open>The target\<close>

text \<open>A wall cell of a board with one wall is the cell of that wall.\<close>

lemma single_wall:
  assumes "spec_wall_at (game_with p m [i]) c"
  shows "snd c * 30 + fst c = int i" and "0 \<le> fst c" and "fst c < 30"
proof -
  let ?b = "board new_Game"
  have len: "length ?b = 600"
    by (simp add: new_Game_def Let_def screen_width_def screen_height_def
        signed_divide_int_def)
  have open_cell: "\<not> is_wall (?b ! k)" if "k < 600" for k
    using that
    by (simp add: new_Game_def Let_def screen_width_def screen_height_def
        signed_divide_int_def new_cell_def)
  have b: "board (game_with p m [i]) = ?b[i := (?b ! i)\<lparr>is_wall := True\<rparr>]"
    by (simp add: game_with_def)
  have "cells_width new_Game = 30" "cells_height new_Game = 20"
    by (simp_all add: new_Game_def Let_def screen_width_def screen_height_def
        signed_divide_int_def)
  then have w: "cells_width (game_with p m [i]) = 30"
    and h: "cells_height (game_with p m [i]) = 20"
    by (simp_all add: game_with_def)
  define k where "k = nat (snd c * 30 + fst c)"
  from assms have bd: "0 \<le> fst c" "fst c < 30" "0 \<le> snd c" "snd c < 20"
    and wall: "is_wall ((?b[i := (?b ! i)\<lparr>is_wall := True\<rparr>]) ! k)"
    unfolding spec_wall_at_def b w h k_def by simp_all
  from bd have k: "k < 600" "int k = snd c * 30 + fst c" by (simp_all add: k_def)
  from wall k(1) open_cell [of k] len have "k = i"
    by (cases "k = i") simp_all
  with k(2) show "snd c * 30 + fst c = int i" by simp
  from bd show "0 \<le> fst c" "fst c < 30" by simp_all
qed

lemma near_target_first_wall:
  "spec_first_wall_cell near_target_game (15, 175) (47, 175) (10, 5)"
proof -
  have cs: "cell_size near_target_game = 32"
    by (simp add: near_target_game_def eval_defs)
  have w: "spec_wall_at near_target_game (10, 5)"
    by (simp add: spec_wall_at_def near_target_game_def eval_defs)
  have only: "c = (10, 5)" if "spec_wall_at near_target_game c" for c
  proof -
    from that have "spec_wall_at (game_with (10, 170) (42, 170) [160]) c"
      by (simp only: near_target_game_def)
    from single_wall [OF this] have "fst c = 10 \<and> snd c = 5" by presburger
    then show ?thesis by (simp add: prod_eq_iff)
  qed
  have "\<lfloor>(335 :: real) / 32\<rfloor> = 10" "\<lfloor>(175 :: real) / 32\<rfloor> = 5"
    by (intro floor_unique; simp)+
  then have c: "spec_cell_of 32 (spec_ray_point (15, 175) (47, 175) 10) = (10, 5)"
    by (simp add: spec_cell_of_def spec_ray_point_def)
  have "\<not> (\<exists>s'. 0 \<le> s' \<and> s' < 10 \<and>
      spec_cell_of 32 (spec_ray_point (15, 175) (47, 175) s') \<noteq> (10, 5) \<and>
      spec_wall_at near_target_game (spec_cell_of 32 (spec_ray_point (15, 175) (47, 175) s')))"
    using only by blast
  with w c show ?thesis
    unfolding spec_first_wall_cell_def cs by (intro conjI exI [of _ 10]) simp_all
qed

text \<open>
  C10. The target gives the direction of the ray and nothing else. In \<open>near_target_game\<close>
  the origin is (15, 175) and the target (47, 175), at the distance 32 from it; the
  first wall cell of the ray is the cell (10, 5), beyond the target, and the call
  reports a hit of that cell at the point (320, 175), at the distance 305 from the
  origin: farther than the target.
\<close>

theorem hit_beyond_target:
  "center (box (player near_target_game)) = (Fin 15, Fin 175) \<and>
   center (mouse_box near_target_game) = (Fin 47, Fin 175) \<and>
   target_distance near_target_game = Fin 32 \<and>
   spec_wall_at near_target_game (10, 5) \<and>
   spec_first_wall_cell near_target_game (15, 175) (47, 175) (10, 5) \<and>
   Cast near_target_game = Some (Inr (Hit (10, 5) (Fin 320, Fin 175) (Fin 305))) \<and>
   flt (target_distance near_target_game) (Fin 305)"
proof -
  note near_target_first_wall
  moreover
  have "Cast near_target_game = Some (Inr (Hit (10, 5) (Fin 320, Fin 175) (Fin 305)))"
    by (simp add: near_target_game_def eval_defs dda_loop_continue dda_loop_stop)
  moreover have "target_distance near_target_game = Fin 32"
    by (simp add: near_target_game_def target_distance_def eval_defs)
  moreover have "spec_wall_at near_target_game (10, 5)"
    by (simp add: spec_wall_at_def near_target_game_def eval_defs)
  moreover have "center (box (player near_target_game)) = (Fin 15, Fin 175)"
    "center (mouse_box near_target_game) = (Fin 47, Fin 175)"
    by (simp_all add: near_target_game_def eval_defs)
  ultimately show ?thesis by simp
qed

section \<open>The inputs of a call\<close>

lemma same_localsI: "same_inputs (game v) g \<Longrightarrow> same_locals v (v\<lparr>game := g\<rparr>)"
  by (simp add: same_locals_def)

lemma same_localsE:
  assumes "same_locals v w"
  obtains g where "w = v\<lparr>game := g\<rparr>" "same_inputs (game v) g"
  using assms by (auto simp: same_locals_def)

lemma same_inputs_sym: "same_inputs g1 g2 \<Longrightarrow> same_inputs g2 g1"
  by (simp add: same_inputs_def)

lemma dda_init_same:
  assumes "cell_size g1 = cell_size g2" "cells_width g1 = cells_width g2"
  shows "dda_init g2 p m = map_sum id (\<lambda>v. v\<lparr>game := g2\<rparr>) (dda_init g1 p m)"
  using assms
  by (auto simp: dda_init_def Let_def bind_err_def split: sum.splits)

lemma same_inputs_nth:
  assumes "same_inputs g1 g2"
  shows "length (board g1) = length (board g2)"
    and "i < length (board g1) \<Longrightarrow> is_wall (board g1 ! i) = is_wall (board g2 ! i)"
proof -
  from assms have m: "map is_wall (board g1) = map is_wall (board g2)"
    by (simp add: same_inputs_def)
  then show l: "length (board g1) = length (board g2)" by (rule map_eq_imp_length_eq)
  assume "i < length (board g1)"
  with l m show "is_wall (board g1 ! i) = is_wall (board g2 ! i)"
    by (metis nth_map)
qed

lemma map_is_wall_highlight:
  "map is_wall (b[i := (b ! i)\<lparr>highlighted := True\<rparr>]) = map is_wall b"
proof (cases "i < length b")
  case True
  then show ?thesis by (auto intro!: nth_equalityI simp: nth_list_update split: if_splits)
next
  case False
  then have "length b \<le> i" by simp
  then show ?thesis by (simp add: list_update_beyond)
qed

lemma same_inputs_highlight:
  "same_inputs g1 g2 \<Longrightarrow> same_inputs (highlight i g1) (highlight i g2)"
  "same_inputs g1 g2 \<Longrightarrow> same_inputs g1 (highlight i g2)"
  by (simp_all add: same_inputs_def highlight_def map_is_wall_highlight)

lemma loop_cond_same: "same_locals v w \<Longrightarrow> loop_cond w = loop_cond v"
  by (erule same_localsE) (simp add: loop_cond_def)

lemma advance_same: "same_locals v w \<Longrightarrow> same_locals (advance v) (advance w)"
  by (erule same_localsE) (simp add: advance_def same_locals_def)

lemma check_tile_same:
  assumes "same_locals v w"
  shows "same_locals (check_tile v) (check_tile w)"
proof -
  from assms obtain g where w: "w = v\<lparr>game := g\<rparr>" and si: "same_inputs (game v) g"
    by (rule same_localsE)
  note n = same_inputs_nth [OF si]
  have ti: "tile_index w = tile_index v"
    using si by (simp add: w tile_index_def same_inputs_def)
  show ?thesis
  proof (cases "0 \<le> tile_index v \<and> tile_index v < int (length (board (game v))) \<and>
      is_wall (board (game v) ! nat (tile_index v))")
    case True
    then have "is_wall (board g ! nat (tile_index v))" using n by auto
    with True n(1) ti same_inputs_highlight(1) [OF si, of "nat (tile_index v)"] show ?thesis
      by (simp add: w check_tile_def Let_def same_locals_def highlight_def)
  next
    case False
    then have "check_tile v = v" by (auto simp: check_tile_def Let_def)
    moreover from False n ti have "check_tile w = w" by (auto simp: w check_tile_def Let_def)
    ultimately show ?thesis using assms by simp
  qed
qed

lemma loop_body_same: "same_locals v w \<Longrightarrow> same_locals (loop_body v) (loop_body w)"
  by (simp add: loop_body_def advance_same check_tile_same)

lemma dda_loop_same_Some:
  assumes run: "dda_loop v = Some v'" and rel: "same_locals v w"
  shows "\<exists>w'. dda_loop w = Some w' \<and> same_locals v' w'"
proof -
  have "\<forall>w. same_locals v w \<longrightarrow> (\<exists>w'. dda_loop w = Some w' \<and> same_locals v' w')"
  proof (rule dda_loop.raw_induct
      [where P = "\<lambda>v v'. \<forall>w. same_locals v w \<longrightarrow> (\<exists>w'. dda_loop w = Some w' \<and> same_locals v' w')",
        OF _ run])
    fix f x x'
    assume IH: "\<And>a b. f a = Some b \<Longrightarrow>
        \<forall>w. same_locals a w \<longrightarrow> (\<exists>w'. dda_loop w = Some w' \<and> same_locals b w')"
      and eq: "(if loop_cond x then f (loop_body x) else Some x) = Some x'"
    show "\<forall>w. same_locals x w \<longrightarrow> (\<exists>w'. dda_loop w = Some w' \<and> same_locals x' w')"
    proof (intro allI impI)
      fix w assume r: "same_locals x w"
      show "\<exists>w'. dda_loop w = Some w' \<and> same_locals x' w'"
      proof (cases "loop_cond x")
        case True
        with eq have "f (loop_body x) = Some x'" by simp
        from IH [OF this] loop_body_same [OF r]
        obtain w' where "dda_loop (loop_body w) = Some w'" "same_locals x' w'" by blast
        moreover from True r have "loop_cond w" by (simp add: loop_cond_same)
        ultimately show ?thesis by (auto simp: dda_loop_continue)
      next
        case False
        with eq have "x' = x" by simp
        moreover from False r have "\<not> loop_cond w" by (simp add: loop_cond_same)
        ultimately show ?thesis using r by (auto simp: dda_loop_stop)
      qed
    qed
  qed
  with rel show ?thesis by blast
qed

lemma dda_loop_same:
  assumes "same_locals v w"
  shows "rel_option same_locals (dda_loop v) (dda_loop w)"
proof (cases "dda_loop v")
  case None
  have "dda_loop w = None"
  proof (rule ccontr)
    assume "dda_loop w \<noteq> None"
    then obtain w' where w': "dda_loop w = Some w'" by auto
    from assms obtain g where "w = v\<lparr>game := g\<rparr>" "same_inputs (game v) g"
      by (rule same_localsE)
    then have "same_locals w v"
      by (cases v) (simp add: same_locals_def same_inputs_sym)
    from dda_loop_same_Some [OF w' this] None show False by simp
  qed
  with None show ?thesis by simp
next
  case (Some v')
  from dda_loop_same_Some [OF Some assms] Some show ?thesis by auto
qed

lemma result_of_same: "same_locals v w \<Longrightarrow> result_of w = result_of v"
  by (erule same_localsE) (simp add: result_of_def tile_xy_def finish_def same_inputs_def)

lemma dda_run_same:
  assumes "same_inputs g1 g2"
  shows "rel_option (rel_sum (=) same_locals) (dda_run g1) (dda_run g2)"
proof -
  let ?p = "center (box (player g1))" and ?m = "center (mouse_box g1)"
  from assms have c: "center (box (player g2)) = ?p" "center (mouse_box g2) = ?m"
    and cs: "cell_size g1 = cell_size g2" "cells_width g1 = cells_width g2"
    by (simp_all add: same_inputs_def)
  note i = dda_init_same [OF cs, of ?p ?m]
  show ?thesis
  proof (cases "dda_init g1 ?p ?m")
    case (Inl e)
    with i c show ?thesis by (simp add: dda_run_def)
  next
    case (Inr v)
    with i have i2: "dda_init g2 ?p ?m = Inr (v\<lparr>game := g2\<rparr>)" by simp
    from Inr have "game v = g1" by (simp add: dda_init_game)
    with assms have "same_locals v (v\<lparr>game := g2\<rparr>)" by (simp add: same_localsI)
    from dda_loop_same [OF this] Inr i2 c show ?thesis
      by (auto simp: dda_run_def option_rel_Some1 option_rel_Some2 split: option.splits)
  qed
qed

lemma Cast_same_inputs:
  assumes "same_inputs g1 g2"
  shows "Cast g2 = Cast g1"
proof -
  from assms have c: "center (box (player g2)) = center (box (player g1))"
    "center (mouse_box g2) = center (mouse_box g1)"
    by (simp_all add: same_inputs_def)
  from dda_run_same [OF assms] show ?thesis
    by (auto simp: Cast_def Let_def c option_rel_Some1 option_rel_Some2 result_of_same
        elim!: rel_sum.cases split: option.splits sum.splits)
qed

lemma same_inputs_refl: "same_inputs g g"
  by (simp add: same_inputs_def)

lemma finish_same:
  "same_locals v w \<Longrightarrow> dda_intersection (finish w) = dda_intersection (finish v)"
  by (erule same_localsE) (simp add: finish_def)

text \<open>
  C9. After a call on \<open>g\<close> has returned with the game \<open>g'\<close>, a call on a game with the
  origin, the target and the walls of \<open>g'\<close> reports what the first call reported (the
  same error, or the same miss, or the same struck cell, point and distance; an endless
  loop twice is the same too), and a second call on \<open>g'\<close> itself leaves \<open>g'\<close> as it is.
  The highlight flags and the stored point are no input of a call.
\<close>

theorem second_call_same_result:
  assumes "DigitalDifferentialAnalysis g = Some (Inr g')" and "same_inputs g' g2"
  shows "Cast g2 = Cast g \<and> DigitalDifferentialAnalysis g' = Some (Inr g')"
proof (cases "out_of_screen (center (box (player g))) \<or> out_of_screen (center (mouse_box g))")
  case True
  with assms aborted_call_changes_nothing [OF True] show ?thesis
    by (simp add: Cast_same_inputs)
next
  case False
  with assms obtain v where v: "dda_run g = Some (Inr v)" and g': "g' = finish v"
    by (auto simp: DigitalDifferentialAnalysis_def Let_def split: option.splits sum.splits)
  note fr = dda_run_frame [OF v]
  have si: "same_inputs g g'"
    using fr same_inputs_highlight(2) [OF same_inputs_refl, of g "nat (tile_index v)"]
    by (auto simp: g' finish_def same_inputs_def)
  from dda_run_same [OF si] v obtain w where w: "dda_run g' = Some (Inr w)"
    and vw: "same_locals v w"
    by (auto simp: option_rel_Some1 elim!: rel_sum.cases)
  from vw have tf: "tile_found w = tile_found v" and ti: "tile_index w = tile_index v"
    by (auto elim!: same_localsE simp: tile_index_def same_inputs_def)
  have "finish w = g'"
    using dda_run_frame [OF w] fr finish_same [OF vw] tf ti
    by (auto simp: g' finish_def highlight_def)
  moreover from si False have "\<not> (out_of_screen (center (box (player g'))) \<or> out_of_screen (center (mouse_box g')))"
    by (simp add: same_inputs_def)
  ultimately have "DigitalDifferentialAnalysis g' = Some (Inr g')"
    using w by (simp add: DigitalDifferentialAnalysis_def Let_def)
  moreover from si assms(2) have "same_inputs g g2"
    by (simp add: same_inputs_def)
  ultimately show ?thesis by (simp add: Cast_same_inputs)
qed


theorem second_call_same_result_witness:
  "DigitalDifferentialAnalysis scenario_game =
     Some (Inr ((highlight 160 scenario_game)\<lparr>dda_intersection := (Fin 320, Fin 176)\<rparr>)) \<and>
   same_inputs ((highlight 160 scenario_game)\<lparr>dda_intersection := (Fin 320, Fin 176)\<rparr>)
     ((highlight 160 scenario_game)\<lparr>dda_intersection := (Fin 320, Fin 176)\<rparr>) \<and>
   Cast ((highlight 160 scenario_game)\<lparr>dda_intersection := (Fin 320, Fin 176)\<rparr>) =
     Cast scenario_game \<and>
   DigitalDifferentialAnalysis
     ((highlight 160 scenario_game)\<lparr>dda_intersection := (Fin 320, Fin 176)\<rparr>) =
     Some (Inr ((highlight 160 scenario_game)\<lparr>dda_intersection := (Fin 320, Fin 176)\<rparr>))"
  using scenario_call
    second_call_same_result [OF scenario_call same_inputs_refl]
  by (simp add: same_inputs_refl)

section \<open>The step sizes and the steps\<close>










section \<open>Termination\<close>

lemma steps_left_fadd:
  assumes "0 < c" "step_ok c s" "a < M"
  shows "steps_left c M (fadd (Fin a) s) < steps_left c M (Fin a)"
proof (cases s)
  case (Fin b)
  with assms have b: "c \<le> b" by simp
  have "(M - (a + b)) / c \<le> (M - a) / c - 1"
    using assms(1) b by (simp add: field_simps)
  then have "\<lceil>(M - (a + b)) / c\<rceil> \<le> \<lceil>(M - a) / c\<rceil> - 1"
    by (metis ceiling_diff_one ceiling_mono)
  moreover have "0 < \<lceil>(M - a) / c\<rceil>" using assms(1,3) by simp
  ultimately show ?thesis using Fin by simp
next
  case PInf
  with assms show ?thesis by simp
next
  case NInf
  with assms show ?thesis by simp
next
  case NaN
  with assms show ?thesis by simp
qed

lemma fadd_not_NInf: "r \<noteq> NInf \<Longrightarrow> step_ok c s \<Longrightarrow> fadd r s \<noteq> NInf"
  by (cases r; cases s) simp_all

lemma flt_Fin_right: "a \<noteq> NInf \<Longrightarrow> flt a (Fin M) \<Longrightarrow> \<exists>x. a = Fin x \<and> x < M"
  by (cases a) simp_all

lemma loop_body_growing:
  assumes "growing c M v"
  shows "growing c M (loop_body v)"
  using assms
  by (auto simp: growing_def loop_body_def check_tile_locals advance_def fadd_not_NInf)

lemma loop_body_decreases:
  assumes c: "0 < c" and g: "growing c M v" and lc: "loop_cond v"
  shows "iterations_left c M (loop_body v) < iterations_left c M v"
proof (cases "loop_cond (loop_body v)")
  case False
  with lc show ?thesis by (simp add: iterations_left_def)
next
  case True
  then have d: "flt (distance (loop_body v)) (Fin M)"
    using loop_body_growing [OF g] by (simp add: loop_cond_def growing_def)
  show ?thesis
  proof (cases "flt (fst (ray_length v)) (snd (ray_length v))")
    case x: True
    from d x have "flt (fst (ray_length v)) (Fin M)"
      by (simp add: loop_body_def check_tile_locals advance_def)
    with g obtain a where a: "fst (ray_length v) = Fin a" "a < M"
      using flt_Fin_right by (auto simp: growing_def)
    from steps_left_fadd [OF c _ a(2), of "fst (ray_step_size v)"] g
    have "steps_left c M (fadd (Fin a) (fst (ray_step_size v))) < steps_left c M (Fin a)"
      by (simp add: growing_def)
    with a x lc True show ?thesis
      by (simp add: iterations_left_def loop_body_def check_tile_locals advance_def)
  next
    case y: False
    from d y have "flt (snd (ray_length v)) (Fin M)"
      by (simp add: loop_body_def check_tile_locals advance_def)
    with g obtain a where a: "snd (ray_length v) = Fin a" "a < M"
      using flt_Fin_right by (auto simp: growing_def)
    from steps_left_fadd [OF c _ a(2), of "snd (ray_step_size v)"] g
    have "steps_left c M (fadd (Fin a) (snd (ray_step_size v))) < steps_left c M (Fin a)"
      by (simp add: growing_def)
    with a y lc True show ?thesis
      by (simp add: iterations_left_def loop_body_def check_tile_locals advance_def)
  qed
qed

lemma dda_loop_terminates:
  assumes "0 < c" "growing c M v"
  shows "\<exists>n \<le> iterations_left c M v. dda_loop v = Some ((loop_body ^^ n) v)"
  using assms(2)
proof (induction "iterations_left c M v" arbitrary: v rule: less_induct)
  case less
  show ?case
  proof (cases "loop_cond v")
    case False
    then have "dda_loop v = Some ((loop_body ^^ 0) v)" by (simp add: dda_loop_stop)
    then show ?thesis by blast
  next
    case True
    note dec = loop_body_decreases [OF assms(1) less.prems True]
    from less.hyps [OF dec loop_body_growing [OF less.prems]]
    obtain n where n: "n \<le> iterations_left c M (loop_body v)"
      "dda_loop (loop_body v) = Some ((loop_body ^^ n) (loop_body v))" by blast
    then have "dda_loop v = Some ((loop_body ^^ Suc n) v)"
      using True by (simp add: dda_loop_continue funpow_swap1)
    moreover from n dec have "Suc n \<le> iterations_left c M v" by simp
    ultimately show ?thesis by blast
  qed
qed


lemma step_ok_weaken: "step_ok c x \<Longrightarrow> c' \<le> c \<Longrightarrow> step_ok c' x"
  by (cases x) simp_all

lemma step_ok_square: "step_ok 0 (fmul q q)"
  by (cases q) simp_all

lemma step_ok_one_plus: "step_ok 0 t \<Longrightarrow> step_ok 1 (fadd (float_of_int 1) t)"
  by (cases t) (simp_all add: float_of_int_def)

lemma step_ok_sqrt: "step_ok 1 t \<Longrightarrow> step_ok 1 (fsqrt t)"
  by (cases t) simp_all

lemma step_ok_scale:
  "0 < cs \<Longrightarrow> step_ok 1 t \<Longrightarrow> step_ok (of_int cs) (fmul t (float_of_int cs))"
  by (cases t) (simp_all add: float_of_int_def inf_of_sign_def)

lemma step_size_ok:
  assumes "0 < cs"
  shows "step_ok (of_int cs) (fst (step_size_of rd cs))"
    and "step_ok (of_int cs) (snd (step_size_of rd cs))"
  using assms
  by (simp_all add: step_size_of_def Let_def step_ok_scale step_ok_sqrt step_ok_one_plus
      step_ok_square)

lemma fmul_nonneg:
  "0 \<le> f \<Longrightarrow> 0 \<le> c \<Longrightarrow> step_ok c ss \<Longrightarrow> step_ok 0 (fmul (Fin f) ss)"
  by (cases ss) (simp_all add: inf_of_sign_def)

lemma smod_bounds:
  fixes n cs :: int
  assumes "0 \<le> n" "0 < cs"
  shows "0 \<le> n smod cs" "n smod cs < cs"
proof -
  from assms have "n smod cs = n mod cs"
    by (cases "n = 0") (simp_all add: signed_modulo_int_def sgn_if)
  with assms show "0 \<le> n smod cs" "n smod cs < cs" by simp_all
qed

lemma snd_axis_init_ok:
  assumes "0 < cs" "0 \<le> n" "step_ok (of_int cs) ss"
  shows "step_ok 0 (snd (axis_init cs d (Fin (of_int n)) n (n - n smod cs) ss))"
proof -
  note b = smod_bounds [OF assms(2,1)]
  have c: "(0::real) \<le> of_int cs" using assms(1) by simp
  have 1: "step_ok 0 (fmul (Fin (of_int (n smod cs) / of_int cs)) ss)"
    using b assms(1) by (intro fmul_nonneg [OF _ c assms(3)]) simp
  have 2: "step_ok 0 (fmul (Fin (of_int (cs - n smod cs) / of_int cs)) ss)"
    using b assms(1) by (intro fmul_nonneg [OF _ c assms(3)]) simp
  from 1 2 step_ok_weaken [OF assms(3) c] assms(1) show ?thesis
    by (simp add: axis_init_def fsub_def float_of_int_def)
qed

lemma trunc_of_int: "trunc (of_int n) = n"
  by (simp add: trunc_def)

lemma step_ok_not_NInf: "step_ok c x \<Longrightarrow> x \<noteq> NInf"
  by (cases x) simp_all

lemma dda_init_total: "cell_size g \<noteq> 0 \<Longrightarrow> \<exists>v. dda_init g p m = Inr v"
  by (simp add: dda_init_def Let_def bind_err_def rem_int_def)

lemma dda_init_growing:
  assumes init: "dda_init g (Fin (of_int a), Fin (of_int b)) m = Inr v"
    and cs: "0 < cell_size g" and a: "0 \<le> a" "a \<le> 960" and b: "0 \<le> b" "b \<le> 640"
  shows "growing (of_int (cell_size g)) 9600 v"
    and "step_ok 0 (fst (ray_length v))" and "step_ok 0 (snd (ray_length v))"
proof -
  let ?cs = "cell_size g"
  let ?rd = "SetLength (fsub (fst m) (Fin (of_int a)), fsub (snd m) (Fin (of_int b)))
       (float_of_int ?cs)"
  let ?ss = "step_size_of ?rd ?cs"
  have ia: "int_of_float (Fin (of_int a)) = a" "int_of_float (Fin (of_int b)) = b"
    using a b by (simp_all add: trunc_of_int)
  have ss: "ray_step_size v = ?ss"
    using init
    by (auto simp: dda_init_def Let_def bind_err_def split: sum.splits)
  have rl: "ray_length v =
      (snd (axis_init ?cs (fst ?rd) (Fin (of_int a)) a (a - a smod ?cs) (fst ?ss)),
       snd (axis_init ?cs (snd ?rd) (Fin (of_int b)) b (b - b smod ?cs) (snd ?ss)))"
    using init
    by (auto simp: dda_init_def Let_def bind_err_def ia rem_int_def
        simp del: int_of_float.simps split: sum.splits if_splits)
  have md: "max_distance v = Fin 9600"
    using init
    by (auto simp: dda_init_def Let_def bind_err_def float_of_int_def screen_width_def
        screen_height_def split: sum.splits)
  show x: "step_ok 0 (fst (ray_length v))" and y: "step_ok 0 (snd (ray_length v))"
    unfolding rl using snd_axis_init_ok [OF cs a(1) step_size_ok(1) [OF cs]]
      snd_axis_init_ok [OF cs b(1) step_size_ok(2) [OF cs]] by simp_all
  show "growing (of_int ?cs) 9600 v"
    unfolding growing_def ss using step_size_ok [OF cs] x y md
    by (simp add: step_ok_not_NInf)
qed

lemma steps_left_bound:
  assumes "0 < c" "step_ok 0 r"
  shows "steps_left c M r \<le> nat \<lceil>M / c\<rceil>"
proof (cases r)
  case (Fin a)
  with assms have "(M - a) / c \<le> M / c" by (simp add: field_simps)
  then have "\<lceil>(M - a) / c\<rceil> \<le> \<lceil>M / c\<rceil>" by (rule ceiling_mono)
  then have "nat \<lceil>(M - a) / c\<rceil> \<le> nat \<lceil>M / c\<rceil>" by (rule nat_mono)
  with Fin show ?thesis by (simp only: steps_left.simps)
qed simp_all

lemma iterations_left_bound:
  assumes "0 < c" "step_ok 0 (fst (ray_length v))" "step_ok 0 (snd (ray_length v))"
  shows "iterations_left c M v \<le> 2 * nat \<lceil>M / c\<rceil> + 1"
  using steps_left_bound [OF assms(1,2), of M] steps_left_bound [OF assms(1,3), of M]
  by (simp add: iterations_left_def)

text \<open>
  A call that passes the guards, with a positive cell size: the set-up succeeds, the
  loop ends after at most \<open>2 * \<lceil>9600 / cell_size\<rceil> + 1\<close> iterations, and what the call
  stores and reports is read from the state in which the loop has ended.
\<close>

lemma passed_call_terminates:
  assumes cs: "0 < cell_size g"
    and on: "\<not> out_of_screen (center (box (player g)))"
      "\<not> out_of_screen (center (mouse_box g))"
  shows "\<exists>v n. dda_init g (center (box (player g))) (center (mouse_box g)) = Inr v \<and>
      n \<le> 2 * nat \<lceil>9600 / real_of_int (cell_size g)\<rceil> + 1 \<and>
      dda_loop v = Some ((loop_body ^^ n) v) \<and>
      max_distance ((loop_body ^^ n) v) = Fin 9600 \<and>
      \<not> loop_cond ((loop_body ^^ n) v) \<and>
      Cast g = Some (Inr (result_of ((loop_body ^^ n) v))) \<and>
      DigitalDifferentialAnalysis g = Some (Inr (finish ((loop_body ^^ n) v)))"
proof -
  let ?p = "center (box (player g))" and ?m = "center (mouse_box g)"
  let ?a = "rect_x (box (player g)) + (rect_w (box (player g)) sdiv 2)"
  let ?b = "rect_y (box (player g)) + (rect_h (box (player g)) sdiv 2)"
  have p: "?p = (Fin (of_int ?a), Fin (of_int ?b))" by (rule center_int)
  note bd = in_screen_bounds [OF on(1) [unfolded p]]
  from cs dda_init_total [of g ?p ?m] obtain v where init: "dda_init g ?p ?m = Inr v"
    by auto
  then have init': "dda_init g (Fin (of_int ?a), Fin (of_int ?b)) ?m = Inr v"
    by (simp add: p)
  have c: "(0::real) < of_int (cell_size g)" using cs by simp
  note gr = dda_init_growing [OF init' cs bd]
  from dda_loop_terminates [OF c gr(1)] obtain n where
    n: "n \<le> iterations_left (of_int (cell_size g)) 9600 v"
    and run: "dda_loop v = Some ((loop_body ^^ n) v)" by blast
  from n iterations_left_bound [OF c gr(2,3), of 9600]
  have bound: "n \<le> 2 * nat \<lceil>9600 / real_of_int (cell_size g)\<rceil> + 1" by simp
  have ex: "max_distance ((loop_body ^^ n) v) = Fin 9600 \<and> \<not> loop_cond ((loop_body ^^ n) v)"
    using gr(1)
    by (intro dda_loop_rule [OF run, where I = "\<lambda>w. max_distance w = Fin 9600"])
      (simp_all add: growing_def loop_body_def check_tile_locals advance_def)
  have "dda_run g = Some (Inr ((loop_body ^^ n) v))"
    by (simp add: dda_run_def init run)
  with passed_guards [OF on]
  have "Cast g = Some (Inr (result_of ((loop_body ^^ n) v)))"
    "DigitalDifferentialAnalysis g = Some (Inr (finish ((loop_body ^^ n) v)))"
    by simp_all
  with init bound run ex show ?thesis by blast
qed

text \<open>
  C5. With a positive cell size every call returns, and it reports a hit, a miss or that
  it was aborted. A call that passes the guards runs the loop for at most
  \<open>2 * \<lceil>9600 / cell_size\<rceil> + 1\<close> iterations, 601 for the cell size 32. The loop ends
  with a tile found, or with a distance that is not below the ceiling
  9600 = 10 * max (960, 640); in the second case the call reports a miss and stores
  (-1, -1).
\<close>

theorem cast_terminates:
  assumes cs: "0 < cell_size g"
  shows "(\<exists>r g'. Cast g = Some (Inr r) \<and> DigitalDifferentialAnalysis g = Some (Inr g')) \<and>
    (\<not> out_of_screen (center (box (player g))) \<and>
     \<not> out_of_screen (center (mouse_box g)) \<longrightarrow>
       (\<exists>v n. dda_init g (center (box (player g))) (center (mouse_box g)) = Inr v \<and>
          n \<le> 2 * nat \<lceil>9600 / real_of_int (cell_size g)\<rceil> + 1 \<and>
          dda_loop v = Some ((loop_body ^^ n) v) \<and>
          Cast g = Some (Inr (result_of ((loop_body ^^ n) v))) \<and>
          DigitalDifferentialAnalysis g = Some (Inr (finish ((loop_body ^^ n) v))) \<and>
          (tile_found ((loop_body ^^ n) v) \<or>
           \<not> flt (distance ((loop_body ^^ n) v)) (Fin 9600) \<and>
           Cast g = Some (Inr Miss) \<and>
           dda_intersection (finish ((loop_body ^^ n) v)) = (Fin (- 1), Fin (- 1)))))"
proof (cases "out_of_screen (center (box (player g))) \<or> out_of_screen (center (mouse_box g))")
  case True
  with aborted_call_changes_nothing [OF True] aborted_cast [OF True] show ?thesis by auto
next
  case False
  then have on: "\<not> out_of_screen (center (box (player g)))"
    "\<not> out_of_screen (center (mouse_box g))" by simp_all
  from passed_call_terminates [OF cs on] obtain v n where
    init: "dda_init g (center (box (player g))) (center (mouse_box g)) = Inr v"
    and n: "n \<le> 2 * nat \<lceil>9600 / real_of_int (cell_size g)\<rceil> + 1"
    and run: "dda_loop v = Some ((loop_body ^^ n) v)"
    and md: "max_distance ((loop_body ^^ n) v) = Fin 9600"
    and ex: "\<not> loop_cond ((loop_body ^^ n) v)"
    and cast: "Cast g = Some (Inr (result_of ((loop_body ^^ n) v)))"
    and call: "DigitalDifferentialAnalysis g = Some (Inr (finish ((loop_body ^^ n) v)))"
    by blast
  have "tile_found ((loop_body ^^ n) v) \<or>
      \<not> flt (distance ((loop_body ^^ n) v)) (Fin 9600) \<and> Cast g = Some (Inr Miss) \<and>
      dda_intersection (finish ((loop_body ^^ n) v)) = (Fin (- 1), Fin (- 1))"
    using ex md cast by (auto simp: loop_cond_def result_of_def finish_def)
  with init n run cast call show ?thesis by blast
qed

lemma diagonal_board_open:
  assumes "i < 600"
  shows "\<not> is_wall (board diagonal_game ! i)"
  using assms
  by (simp add: diagonal_game_def game_with_def new_Game_def Let_def screen_width_def
      screen_height_def signed_divide_int_def new_cell_def)

theorem cast_terminates_witness:
  "0 < cell_size diagonal_game \<and>
   \<not> out_of_screen (center (box (player diagonal_game))) \<and>
   \<not> out_of_screen (center (mouse_box diagonal_game)) \<and>
   Cast diagonal_game = Some (Inr Miss) \<and>
   (\<exists>v n. dda_init diagonal_game (center (box (player diagonal_game)))
             (center (mouse_box diagonal_game)) = Inr v \<and>
          n \<le> 601 \<and> dda_loop v = Some ((loop_body ^^ n) v) \<and>
          \<not> tile_found ((loop_body ^^ n) v) \<and>
          \<not> flt (distance ((loop_body ^^ n) v)) (Fin 9600) \<and>
          DigitalDifferentialAnalysis diagonal_game = Some (Inr (finish ((loop_body ^^ n) v))) \<and>
          dda_intersection (finish ((loop_body ^^ n) v)) = (Fin (- 1), Fin (- 1)))"
proof -
  let ?g = diagonal_game
  have cs: "cell_size ?g = 32" and len: "length (board ?g) = 600"
    by (simp_all add: diagonal_game_def eval_defs)
  then have pos: "0 < cell_size ?g" by simp
  have on: "\<not> out_of_screen (center (box (player ?g)))"
    "\<not> out_of_screen (center (mouse_box ?g))"
    by (simp_all add: diagonal_game_def eval_defs)
  from cast_terminates [OF pos] on obtain v n where
    init: "dda_init ?g (center (box (player ?g))) (center (mouse_box ?g)) = Inr v"
    and n: "n \<le> 2 * nat \<lceil>9600 / real_of_int (cell_size ?g)\<rceil> + 1"
    and run: "dda_loop v = Some ((loop_body ^^ n) v)"
    and call: "DigitalDifferentialAnalysis ?g = Some (Inr (finish ((loop_body ^^ n) v)))"
    and ex: "tile_found ((loop_body ^^ n) v) \<or>
      \<not> flt (distance ((loop_body ^^ n) v)) (Fin 9600) \<and> Cast ?g = Some (Inr Miss) \<and>
      dda_intersection (finish ((loop_body ^^ n) v)) = (Fin (- 1), Fin (- 1))"
    by blast
  from dda_init_game [OF init] have "game v = ?g" "\<not> tile_found v" by simp_all
  from dda_loop_frame [OF run this(2,1)] diagonal_board_open len
  have nf: "\<not> tile_found ((loop_body ^^ n) v)" by auto
  from n have "n \<le> 601" unfolding cs by simp
  with pos on init run call ex nf show ?thesis by blast
qed

section \<open>A vertical ray\<close>

text \<open>
  In \<open>vertical_game\<close> the ray goes down from (175, 15) and the cell (5, 10) on its way is
  a wall. The step size of x is infinite and the x component of the unit direction is
  zero, so \<open>x_intersection.x\<close> is a NaN and \<open>map_check.x\<close> is its conversion,
  -2147483648. The y axis advances until the distance reaches the ceiling, the flat
  index of the map cell is negative all the way, and no cell is tested: the call
  reports a miss.
\<close>

lemma vertical_init:
  "dda_init vertical_game (center (box (player vertical_game)))
     (center (mouse_box vertical_game)) =
   Inr \<lparr>game = vertical_game, ray_start = (Fin 175, Fin 15), ray_dir = (Fin 0, Fin 32),
        unit_ray_dir = (Fin 0, Fin 1), ray_step_size = (PInf, Fin 32), step = (32, 32),
        map_check = (- 2147483648, 0), ray_length = (PInf, Fin 17),
        max_distance = Fin 9600, distance = Fin 0, tile_found = False\<rparr>"
  by (simp add: vertical_game_def eval_defs)

lemma vertical_step:
  assumes sz: "constructed_sizes g" and b: "0 \<le> b" "b \<le> 640"
    and inv: "vertical_inv g b v" and lc: "loop_cond v"
  shows "vertical_inv g b (loop_body v)"
proof -
  define y where "y = snd (map_check v)"
  from inv have f: "game v = g" "\<not> tile_found v" "step v = (32, 32)"
    "fst (map_check v) = - 2147483648" "0 \<le> y" "ray_step_size v = (PInf, Fin 32)"
    "max_distance v = Fin 9600" "ray_length v = (PInf, Fin (of_int (y + 32 - b)))"
    and d: "distance v = Fin 0 \<and> y \<le> b \<or> distance v = Fin (of_int (y - b))"
    by (simp_all add: vertical_inv_def y_def)
  from d lc f(7) b have yb: "y < 10240"
    by (auto simp: loop_cond_def)
  define w where "w = advance v"
  have w: "game w = g" "\<not> tile_found w" "step w = (32, 32)"
    "map_check w = (- 2147483648, y + 32)" "ray_step_size w = (PInf, Fin 32)"
    "max_distance w = Fin 9600" "distance w = Fin (of_int (y + 32 - b))"
    "ray_length w = (PInf, Fin (of_int (y + 32 + 32 - b)))"
    using f by (simp_all add: w_def advance_def y_def prod_eq_iff)
  have "(y + 32) sdiv 32 = (y + 32) div 32" using f(5) by (intro sdiv_nonneg) simp
  also have "\<dots> \<le> 321" using yb by simp
  finally have "tile_index w < 0"
    using sz w(1,4) by (simp add: tile_index_def Let_def constructed_sizes_def sdiv_int_min)
  then have "loop_body v = w" by (simp add: loop_body_def w_def check_tile_negative)
  with w f(5) show ?thesis by (simp add: vertical_inv_def)
qed

lemma vertical_first_wall:
  "spec_first_wall_cell vertical_game (175, 15) (175, 47) (5, 10)"
proof -
  have cs: "cell_size vertical_game = 32"
    by (simp add: vertical_game_def eval_defs)
  have w: "spec_wall_at vertical_game (5, 10)"
    by (simp add: spec_wall_at_def vertical_game_def eval_defs)
  have only: "c = (5, 10)" if "spec_wall_at vertical_game c" for c
  proof -
    from that have "spec_wall_at (game_with (170, 10) (170, 42) [305]) c"
      by (simp only: vertical_game_def)
    from single_wall [OF this] have "fst c = 5 \<and> snd c = 10" by presburger
    then show ?thesis by (simp add: prod_eq_iff)
  qed
  have "\<lfloor>(335 :: real) / 32\<rfloor> = 10" "\<lfloor>(175 :: real) / 32\<rfloor> = 5"
    by (intro floor_unique; simp)+
  then have c: "spec_cell_of 32 (spec_ray_point (175, 15) (175, 47) 10) = (5, 10)"
    by (simp add: spec_cell_of_def spec_ray_point_def)
  have "\<not> (\<exists>s'. 0 \<le> s' \<and> s' < 10 \<and>
      spec_cell_of 32 (spec_ray_point (175, 15) (175, 47) s') \<noteq> (5, 10) \<and>
      spec_wall_at vertical_game (spec_cell_of 32 (spec_ray_point (175, 15) (175, 47) s')))"
    using only by blast
  with w c show ?thesis
    unfolding spec_first_wall_cell_def cs by (intro conjI exI [of _ 10]) simp_all
qed

lemma vertical_ray_misses_wall:
  "center (box (player vertical_game)) = (Fin 175, Fin 15) \<and>
   center (mouse_box vertical_game) = (Fin 175, Fin 47) \<and>
   spec_first_wall_cell vertical_game (175, 15) (175, 47) (5, 10) \<and>
   Cast vertical_game = Some (Inr Miss)"
proof -
  let ?g = vertical_game
  have sz: "constructed_sizes ?g"
    by (simp add: constructed_sizes_def vertical_game_def eval_defs)
  then have pos: "0 < cell_size ?g" by (simp add: constructed_sizes_def)
  have p: "center (box (player ?g)) = (Fin 175, Fin 15)"
    and m: "center (mouse_box ?g) = (Fin 175, Fin 47)"
    by (simp_all add: vertical_game_def eval_defs)
  have on: "\<not> out_of_screen (center (box (player ?g)))"
    "\<not> out_of_screen (center (mouse_box ?g))"
    unfolding p m by (simp_all add: eval_defs)
  from passed_call_terminates [OF pos on] vertical_init obtain n v where
    v: "v = \<lparr>game = ?g, ray_start = (Fin 175, Fin 15), ray_dir = (Fin 0, Fin 32),
        unit_ray_dir = (Fin 0, Fin 1), ray_step_size = (PInf, Fin 32), step = (32, 32),
        map_check = (- 2147483648, 0), ray_length = (PInf, Fin 17),
        max_distance = Fin 9600, distance = Fin 0, tile_found = False\<rparr>"
    and run: "dda_loop v = Some ((loop_body ^^ n) v)"
    and cast: "Cast ?g = Some (Inr (result_of ((loop_body ^^ n) v)))"
    by auto
  have "vertical_inv ?g 15 ((loop_body ^^ n) v) \<and> \<not> loop_cond ((loop_body ^^ n) v)"
  proof (rule dda_loop_rule [OF run, where I = "vertical_inv ?g 15"])
    show "vertical_inv ?g 15 v" by (simp add: v vertical_inv_def)
  next
    fix w assume "vertical_inv ?g 15 w" "loop_cond w"
    then show "vertical_inv ?g 15 (loop_body w)"
      by (intro vertical_step [OF sz]) simp_all
  qed
  then have "\<not> tile_found ((loop_body ^^ n) v)" by (simp add: vertical_inv_def)
  with cast have "Cast ?g = Some (Inr Miss)" by (simp add: result_of_def)
  with vertical_first_wall p m show ?thesis by simp
qed

section \<open>The first wall cell of a ray\<close>








end
